theory Spec2Isabelle
  imports Main
begin

section \<open>LinkShrink: the storage layer and the routes over it\<close>

text \<open>
  The development follows \<^verbatim>\<open>shared/schema.ts\<close> (the tables), \<^verbatim>\<open>server/storage.ts\<close>
  (class \<^verbatim>\<open>DatabaseStorage\<close>), \<^verbatim>\<open>server/utils.ts\<close> and \<^verbatim>\<open>server/routes.ts\<close>.

  A table is the list of its rows in insertion order. A nullable column is an \<open>option\<close>
  (\<open>None\<close> is SQL NULL). A timestamp is an integer count of milliseconds. The values
  that the program takes from outside (the clock, \<^verbatim>\<open>gen_random_uuid()\<close>, \<^verbatim>\<open>nanoid(8)\<close>,
  the QR encoder, the URL parser) are arguments of the functions that read them.
\<close>

subsection \<open>Rows (shared/schema.ts)\<close>

type_synonym timestamp = int

record Url =
  url_id :: string
  originalUrl :: string
  shortCode :: string
  customAlias :: "string option"
  title :: "string option"
  description :: "string option"
  userId :: "string option"
  isActive :: "bool option"
  qrCodeUrl :: "string option"
  createdAt :: "timestamp option"
  updatedAt :: "timestamp option"
  expiresAt :: "timestamp option"

record UrlClick =
  click_id :: string
  click_urlId :: string
  ipAddress :: "string option"
  userAgent :: "string option"
  referer :: "string option"
  country :: "string option"
  city :: "string option"
  device :: "string option"
  browser :: "string option"
  os :: "string option"
  clickedAt :: "timestamp option"

text \<open>
  A \<^verbatim>\<open>jsonb\<close> column of type \<^verbatim>\<open>Record<string, number>\<close> is an association list with
  distinct keys. The keys of \<^verbatim>\<open>dailyClicks\<close> are dates, kept here as day numbers.
\<close>

record UrlAnalytics =
  an_id :: string
  an_urlId :: string
  totalClicks :: "int option"
  uniqueClicks :: "int option"
  clicksByCountry :: "(string \<times> int) list option"
  clicksByDevice :: "(string \<times> int) list option"
  clicksByBrowser :: "(string \<times> int) list option"
  clicksByReferer :: "(string \<times> int) list option"
  dailyClicks :: "(int \<times> int) list option"
  lastClickAt :: "timestamp option"
  an_updatedAt :: "timestamp option"

text \<open>
  \<^verbatim>\<open>InsertUrl\<close> as \<^verbatim>\<open>createUrl\<close> receives it: the insert schema without \<^verbatim>\<open>id\<close>,
  \<^verbatim>\<open>createdAt\<close>, \<^verbatim>\<open>updatedAt\<close>, with \<^verbatim>\<open>shortCode\<close> optional. For \<^verbatim>\<open>isActive\<close> the
  column default \<^verbatim>\<open>true\<close> applies when the key is absent (\<open>None\<close>), so the key being
  present with the value NULL is \<open>Some None\<close>.
\<close>

record InsertUrl =
  in_originalUrl :: string
  in_shortCode :: "string option"
  in_customAlias :: "string option"
  in_title :: "string option"
  in_description :: "string option"
  in_userId :: "string option"
  in_isActive :: "bool option option"
  in_qrCodeUrl :: "string option"
  in_expiresAt :: "timestamp option"

text \<open>
  \<^verbatim>\<open>Partial<InsertUrl>\<close>, the argument of \<^verbatim>\<open>updateUrl\<close>: a key that is absent
  (\<open>None\<close>) leaves its column alone; a nullable column can be set to NULL (\<open>Some None\<close>).
\<close>

record UrlUpdates =
  up_originalUrl :: "string option"
  up_shortCode :: "string option"
  up_customAlias :: "string option option"
  up_title :: "string option option"
  up_description :: "string option option"
  up_userId :: "string option option"
  up_isActive :: "bool option option"
  up_qrCodeUrl :: "string option option"
  up_expiresAt :: "timestamp option option"

record InsertUrlClick =
  ic_urlId :: string
  ic_ipAddress :: "string option"
  ic_userAgent :: "string option"
  ic_referer :: "string option"
  ic_country :: "string option"
  ic_city :: "string option"
  ic_device :: "string option"
  ic_browser :: "string option"
  ic_os :: "string option"

subsection \<open>The database\<close>

text \<open>
  Every \<^verbatim>\<open>await db...\<close> is one statement, and a statement can be refused by the
  engine for a reason outside the tables (a lost connection, a timeout). \<open>faults\<close> is
  the schedule of those refusals: its head says
  whether the next statement is refused, and each statement consumes it. What earlier
  statements wrote stays written: there is no transaction in \<^verbatim>\<open>storage.ts\<close>.

  The tables \<^verbatim>\<open>users\<close> and \<^verbatim>\<open>sessions\<close> are left out, and with them the foreign key of
  \<^verbatim>\<open>urls.user_id\<close>; the other constraints of the three tables are checked where a
  statement writes.
\<close>

record store =
  urls :: "Url list"
  urlClicks :: "UrlClick list"
  urlAnalytics :: "UrlAnalytics list"
  faults :: "bool list"

datatype error =
    StorageFault
  | UniqueViolation
  | ForeignKeyViolation
  | ValueTooLong
  | GroupingError

definition refused :: "store \<Rightarrow> bool" where
  "refused d = (case faults d of [] \<Rightarrow> False | f # _ \<Rightarrow> f)"

definition advance :: "store \<Rightarrow> store" where
  "advance d = d\<lparr>faults := tl (faults d)\<rparr>"

text \<open>
  \<^verbatim>\<open>varchar(n)\<close>: a longer value is an error, unless all the excess characters are
  spaces, and then the value is cut to \<open>n\<close> characters.
\<close>

definition varchar :: "nat \<Rightarrow> string \<Rightarrow> string option" where
  "varchar n s =
     (if length s \<le> n then Some s
      else if list_all (\<lambda>c. c = CHR '' '') (drop n s) then Some (take n s)
      else None)"

definition varchar_opt :: "nat \<Rightarrow> string option \<Rightarrow> string option option" where
  "varchar_opt n v = (case v of None \<Rightarrow> Some None | Some s \<Rightarrow> map_option Some (varchar n s))"

subsection \<open>URL operations (storage.ts)\<close>

definition getUrl :: "string \<Rightarrow> store \<Rightarrow> store \<times> (error + Url option)" where
  "getUrl code d =
     (if refused d then (advance d, Inl StorageFault)
      else (advance d,
            Inr (find (\<lambda>u. shortCode u = code \<and> isActive u = Some True) (urls d))))"

definition getUrlById :: "string \<Rightarrow> store \<Rightarrow> store \<times> (error + (Url \<times> UrlAnalytics option) option)" where
  "getUrlById i d =
     (if refused d then (advance d, Inl StorageFault)
      else (advance d,
            Inr (case find (\<lambda>u. url_id u = i) (urls d) of
                   None \<Rightarrow> None
                 | Some u \<Rightarrow> Some (u, find (\<lambda>a. an_urlId a = url_id u) (urlAnalytics d)))))"

definition checkCustomAlias :: "string \<Rightarrow> store \<Rightarrow> store \<times> (error + bool)" where
  "checkCustomAlias alias d =
     (if refused d then (advance d, Inl StorageFault)
      else (advance d,
            Inr (list_ex (\<lambda>u. shortCode u = alias \<and> isActive u = Some True) (urls d))))"

text \<open>
  The row that \<^verbatim>\<open>insert(urls).values({...insertUrl, shortCode})\<close> writes, or the
  constraint of the table \<^verbatim>\<open>urls\<close> that refuses it: the primary key, the unique
  \<^verbatim>\<open>short_code\<close>, the three \<^verbatim>\<open>varchar\<close> lengths.
\<close>

definition new_url_row :: "string \<Rightarrow> timestamp \<Rightarrow> string \<Rightarrow> InsertUrl \<Rightarrow> Url list \<Rightarrow> error + Url" where
  "new_url_row i t code ins rows =
     (case (varchar 12 code, varchar_opt 50 (in_customAlias ins), varchar_opt 200 (in_title ins)) of
        (Some c, Some al, Some ti) \<Rightarrow>
          if list_ex (\<lambda>u. url_id u = i) rows then Inl UniqueViolation
          else if list_ex (\<lambda>u. shortCode u = c) rows then Inl UniqueViolation
          else Inr \<lparr>url_id = i, originalUrl = in_originalUrl ins, shortCode = c,
                    customAlias = al, title = ti, description = in_description ins,
                    userId = in_userId ins,
                    isActive = (case in_isActive ins of None \<Rightarrow> Some True | Some b \<Rightarrow> b),
                    qrCodeUrl = in_qrCodeUrl ins, createdAt = Some t, updatedAt = Some t,
                    expiresAt = in_expiresAt ins\<rparr>
      | _ \<Rightarrow> Inl ValueTooLong)"

definition empty_analytics :: "string \<Rightarrow> timestamp \<Rightarrow> string \<Rightarrow> UrlAnalytics" where
  "empty_analytics a t i =
     \<lparr>an_id = a, an_urlId = i, totalClicks = Some 0, uniqueClicks = Some 0,
      clicksByCountry = Some [], clicksByDevice = Some [], clicksByBrowser = Some [],
      clicksByReferer = Some [], dailyClicks = Some [], lastClickAt = None,
      an_updatedAt = Some t\<rparr>"

text \<open>
  \<^verbatim>\<open>createUrl\<close>. \<open>ids\<close> are the two values \<^verbatim>\<open>gen_random_uuid()\<close> gives (the link's id,
  the snapshot's id), \<open>t\<close> the clock, \<open>gen\<close> what \<^verbatim>\<open>generateShortCode()\<close> returns when
  it is called, that is when \<^verbatim>\<open>insertUrl.shortCode\<close> is absent or empty.
\<close>

definition createUrl ::
  "string \<times> string \<Rightarrow> timestamp \<Rightarrow> string \<Rightarrow> InsertUrl \<Rightarrow> store \<Rightarrow> store \<times> (error + Url)" where
  "createUrl ids t gen ins d =
     (let code = (case in_shortCode ins of None \<Rightarrow> gen | Some c \<Rightarrow> if c = [] then gen else c) in
      if refused d then (advance d, Inl StorageFault)
      else case new_url_row (fst ids) t code ins (urls d) of
        Inl e \<Rightarrow> (advance d, Inl e)
      | Inr row \<Rightarrow>
          let d1 = (advance d)\<lparr>urls := urls d @ [row]\<rparr> in
          if refused d1 then (advance d1, Inl StorageFault)
          else if list_ex (\<lambda>a. an_id a = snd ids) (urlAnalytics d1) then (advance d1, Inl UniqueViolation)
          else if list_ex (\<lambda>a. an_urlId a = url_id row) (urlAnalytics d1) then (advance d1, Inl UniqueViolation)
          else ((advance d1)\<lparr>urlAnalytics := urlAnalytics d1 @ [empty_analytics (snd ids) t (url_id row)]\<rparr>,
                Inr row))"

text \<open>
  \<^verbatim>\<open>updateUrl\<close>: \<^verbatim>\<open>update(urls).set({...updates, updatedAt: new Date()}).where(id = i)\<close>.
\<close>

definition set_col :: "'a option \<Rightarrow> 'a \<Rightarrow> 'a" where
  "set_col v old = (case v of None \<Rightarrow> old | Some x \<Rightarrow> x)"

definition apply_updates :: "timestamp \<Rightarrow> UrlUpdates \<Rightarrow> Url \<Rightarrow> Url" where
  "apply_updates t ups u =
     u\<lparr>originalUrl := set_col (up_originalUrl ups) (originalUrl u),
       shortCode := set_col (up_shortCode ups) (shortCode u),
       customAlias := set_col (up_customAlias ups) (customAlias u),
       title := set_col (up_title ups) (title u),
       description := set_col (up_description ups) (description u),
       userId := set_col (up_userId ups) (userId u),
       isActive := set_col (up_isActive ups) (isActive u),
       qrCodeUrl := set_col (up_qrCodeUrl ups) (qrCodeUrl u),
       expiresAt := set_col (up_expiresAt ups) (expiresAt u),
       updatedAt := Some t\<rparr>"

text \<open>The \<^verbatim>\<open>varchar\<close> columns of an update, cut or refused as the table says.\<close>

definition fit_updates :: "UrlUpdates \<Rightarrow> UrlUpdates option" where
  "fit_updates ups =
     (case (case up_shortCode ups of None \<Rightarrow> Some None | Some c \<Rightarrow> map_option Some (varchar 12 c),
            case up_customAlias ups of None \<Rightarrow> Some None | Some v \<Rightarrow> map_option Some (varchar_opt 50 v),
            case up_title ups of None \<Rightarrow> Some None | Some v \<Rightarrow> map_option Some (varchar_opt 200 v)) of
        (Some c, Some al, Some ti) \<Rightarrow>
          Some (ups\<lparr>up_shortCode := c, up_customAlias := al, up_title := ti\<rparr>)
      | _ \<Rightarrow> None)"

definition updateUrl :: "timestamp \<Rightarrow> string \<Rightarrow> UrlUpdates \<Rightarrow> store \<Rightarrow> store \<times> (error + Url option)" where
  "updateUrl t i updates d =
     (if refused d then (advance d, Inl StorageFault)
      else if list_ex (\<lambda>u. url_id u = i) (urls d) then
        (case fit_updates updates of
           None \<Rightarrow> (advance d, Inl ValueTooLong)
         | Some ups \<Rightarrow>
             if (case up_shortCode ups of
                   None \<Rightarrow> False
                 | Some c \<Rightarrow> list_ex (\<lambda>u. shortCode u = c \<and> url_id u \<noteq> i) (urls d))
             then (advance d, Inl UniqueViolation)
             else
               (let rows = map (\<lambda>u. if url_id u = i then apply_updates t ups u else u) (urls d)
                in ((advance d)\<lparr>urls := rows\<rparr>, Inr (find (\<lambda>u. url_id u = i) rows))))
      else (advance d, Inr None))"

definition deleteUrl :: "string \<Rightarrow> store \<Rightarrow> store \<times> (error + unit)" where
  "deleteUrl i d =
     (if refused d then (advance d, Inl StorageFault)
      else ((advance d)\<lparr>urls := map (\<lambda>u. if url_id u = i then u\<lparr>isActive := Some False\<rparr> else u) (urls d)\<rparr>,
            Inr ()))"

subsection \<open>Analytics operations (storage.ts)\<close>

text \<open>
  The row \<^verbatim>\<open>insert(urlClicks).values(insertClick)\<close> writes (\<^verbatim>\<open>clicked_at\<close> takes its
  default, the clock), or the constraint of \<^verbatim>\<open>url_clicks\<close> that refuses it.
\<close>

definition new_click_row :: "string \<Rightarrow> timestamp \<Rightarrow> InsertUrlClick \<Rightarrow> store \<Rightarrow> error + UrlClick" where
  "new_click_row i t ins d =
     (case (varchar_opt 45 (ic_ipAddress ins), varchar_opt 2 (ic_country ins),
            varchar_opt 100 (ic_city ins), varchar_opt 50 (ic_device ins),
            varchar_opt 50 (ic_browser ins), varchar_opt 50 (ic_os ins)) of
        (Some ip, Some co, Some ci, Some de, Some br, Some sy) \<Rightarrow>
          if list_ex (\<lambda>c. click_id c = i) (urlClicks d) then Inl UniqueViolation
          else if list_ex (\<lambda>u. url_id u = ic_urlId ins) (urls d) then
            Inr \<lparr>click_id = i, click_urlId = ic_urlId ins, ipAddress = ip,
                 userAgent = ic_userAgent ins, referer = ic_referer ins, country = co,
                 city = ci, device = de, browser = br, os = sy, clickedAt = Some t\<rparr>
          else Inl ForeignKeyViolation
      | _ \<Rightarrow> Inl ValueTooLong)"

definition insert_click :: "string \<Rightarrow> timestamp \<Rightarrow> InsertUrlClick \<Rightarrow> store \<Rightarrow> store \<times> (error + unit)" where
  "insert_click i t ins d =
     (if refused d then (advance d, Inl StorageFault)
      else case new_click_row i t ins d of
        Inl e \<Rightarrow> (advance d, Inl e)
      | Inr row \<Rightarrow> ((advance d)\<lparr>urlClicks := urlClicks d @ [row]\<rparr>, Inr ()))"

text \<open>
  The aggregate query of \<^verbatim>\<open>updateUrlAnalytics\<close> (storage.ts, the \<^verbatim>\<open>select\<close> over
  \<^verbatim>\<open>urlClicks\<close>). Its select list, item by item, as SQL expressions:
\<close>

datatype sql =
    Column string
  | Text_literal string
  | Coalesce sql sql
  | Date sql
  | Cast_int sql
  | Count_star
  | Count sql
  | Count_distinct sql
  | Max_agg sql
  | Json_object_agg sql sql

definition clicksData_select :: "(string \<times> sql) list" where
  "clicksData_select =
     [(''totalClicks'', Cast_int Count_star),
      (''uniqueClicks'', Cast_int (Count_distinct (Column ''ip_address''))),
      (''countries'', Json_object_agg (Coalesce (Column ''country'') (Text_literal ''Unknown''))
                                      (Count (Column ''country''))),
      (''devices'', Json_object_agg (Coalesce (Column ''device'') (Text_literal ''Unknown''))
                                    (Count (Column ''device''))),
      (''browsers'', Json_object_agg (Coalesce (Column ''browser'') (Text_literal ''Unknown''))
                                     (Count (Column ''browser''))),
      (''referers'', Json_object_agg (Coalesce (Column ''referer'') (Text_literal ''Direct''))
                                     (Count (Column ''referer''))),
      (''dailyClicks'', Json_object_agg (Date (Column ''clicked_at'')) Count_star),
      (''lastClick'', Max_agg (Column ''clicked_at''))]"

text \<open>
  The database is PostgreSQL (\<^verbatim>\<open>drizzle-orm/pg-core\<close>, \<^verbatim>\<open>jsonb\<close>, \<^verbatim>\<open>gen_random_uuid()\<close>). It
  analyses a statement before it reads a row, and it does not accept a call of an
  aggregate inside the argument of an aggregate: the statement fails with the error 42803,
  \<^verbatim>\<open>aggregate function calls cannot be nested\<close>.
\<close>

fun has_aggregate :: "sql \<Rightarrow> bool" where
  "has_aggregate (Column c) = False"
| "has_aggregate (Text_literal s) = False"
| "has_aggregate (Coalesce a b) = (has_aggregate a \<or> has_aggregate b)"
| "has_aggregate (Date a) = has_aggregate a"
| "has_aggregate (Cast_int a) = has_aggregate a"
| "has_aggregate Count_star = True"
| "has_aggregate (Count a) = True"
| "has_aggregate (Count_distinct a) = True"
| "has_aggregate (Max_agg a) = True"
| "has_aggregate (Json_object_agg k v) = True"

fun nested_aggregate :: "sql \<Rightarrow> bool" where
  "nested_aggregate (Column c) = False"
| "nested_aggregate (Text_literal s) = False"
| "nested_aggregate (Coalesce a b) = (nested_aggregate a \<or> nested_aggregate b)"
| "nested_aggregate (Date a) = nested_aggregate a"
| "nested_aggregate (Cast_int a) = nested_aggregate a"
| "nested_aggregate Count_star = False"
| "nested_aggregate (Count a) = has_aggregate a"
| "nested_aggregate (Count_distinct a) = has_aggregate a"
| "nested_aggregate (Max_agg a) = has_aggregate a"
| "nested_aggregate (Json_object_agg k v) = (has_aggregate k \<or> has_aggregate v)"

text \<open>
  The row type the source gives the result (\<^verbatim>\<open>sql<number>\<close>, \<^verbatim>\<open>sql<Record<string,
  number>>\<close>, \<^verbatim>\<open>sql<Date>\<close>), which the upsert reads.
\<close>

record ClicksData =
  cd_totalClicks :: int
  cd_uniqueClicks :: int
  countries :: "(string \<times> int) list"
  devices :: "(string \<times> int) list"
  browsers :: "(string \<times> int) list"
  referers :: "(string \<times> int) list"
  cd_dailyClicks :: "(int \<times> int) list"
  lastClick :: "timestamp option"

text \<open>
  Five items of \<open>clicksData_select\<close> put \<^verbatim>\<open>count\<close> inside the argument of
  \<^verbatim>\<open>json_object_agg\<close> (lemma \<open>clicksData_select_nested\<close> below). So the statement is
  refused on every call, whatever the rows of the link, also when the link has no row:
  the query never returns, neither the empty list nor a row.
\<close>

definition select_clicksData :: "string \<Rightarrow> store \<Rightarrow> store \<times> (error + ClicksData list)" where
  "select_clicksData urlId d =
     (if refused d then (advance d, Inl StorageFault)
      else (advance d, Inl GroupingError))"

text \<open>\<^verbatim>\<open>s || fallback\<close> and \<^verbatim>\<open>coalesce\<close>: the first value unless it is missing.\<close>

definition coalesce :: "'a option \<Rightarrow> 'a \<Rightarrow> 'a" where
  "coalesce v fb = (case v of None \<Rightarrow> fb | Some x \<Rightarrow> x)"

text \<open>
  \<^verbatim>\<open>insert(urlAnalytics).values({...}).onConflictDoUpdate({target: urlId, set: {...,
  updatedAt: new Date()}})\<close>. \<open>a\<close> is the id a new row takes, \<open>t\<close> the clock.
\<close>

definition overwrite :: "timestamp \<Rightarrow> ClicksData \<Rightarrow> UrlAnalytics \<Rightarrow> UrlAnalytics" where
  "overwrite t data r =
     r\<lparr>totalClicks := Some (cd_totalClicks data),
       uniqueClicks := Some (cd_uniqueClicks data),
       clicksByCountry := Some (countries data),
       clicksByDevice := Some (devices data),
       clicksByBrowser := Some (browsers data),
       clicksByReferer := Some (referers data),
       dailyClicks := Some (cd_dailyClicks data),
       lastClickAt := lastClick data,
       an_updatedAt := Some t\<rparr>"

definition upsert_analytics :: "string \<Rightarrow> timestamp \<Rightarrow> string \<Rightarrow> ClicksData \<Rightarrow> store \<Rightarrow> store \<times> (error + unit)" where
  "upsert_analytics a t urlId data d =
     (if refused d then (advance d, Inl StorageFault)
      else if list_ex (\<lambda>r. an_urlId r = urlId) (urlAnalytics d) then
        ((advance d)\<lparr>urlAnalytics := map (\<lambda>r. if an_urlId r = urlId then overwrite t data r else r) (urlAnalytics d)\<rparr>,
         Inr ())
      else if list_ex (\<lambda>r. an_id r = a) (urlAnalytics d) then (advance d, Inl UniqueViolation)
      else if list_ex (\<lambda>u. url_id u = urlId) (urls d) then
        ((advance d)\<lparr>urlAnalytics := urlAnalytics d @ [overwrite t data (empty_analytics a t urlId)]\<rparr>,
         Inr ())
      else (advance d, Inl ForeignKeyViolation))"

definition updateUrlAnalytics :: "string \<Rightarrow> timestamp \<Rightarrow> string \<Rightarrow> store \<Rightarrow> store \<times> (error + unit)" where
  "updateUrlAnalytics a t urlId d =
     (case select_clicksData urlId d of
        (d1, Inl e) \<Rightarrow> (d1, Inl e)
      | (d1, Inr clicksData) \<Rightarrow>
          (case clicksData of
             [] \<Rightarrow> (d1, Inr ())
           | data # _ \<Rightarrow> upsert_analytics a t urlId data d1))"

text \<open>\<open>ids\<close>: the id of the click row and the id a new snapshot row would take.\<close>

definition recordClick :: "string \<times> string \<Rightarrow> timestamp \<Rightarrow> InsertUrlClick \<Rightarrow> store \<Rightarrow> store \<times> (error + unit)" where
  "recordClick ids t insertClick d =
     (case insert_click (fst ids) t insertClick d of
        (d1, Inl e) \<Rightarrow> (d1, Inl e)
      | (d1, Inr _) \<Rightarrow> updateUrlAnalytics (snd ids) t (ic_urlId insertClick) d1)"

definition getUrlAnalytics :: "string \<Rightarrow> store \<Rightarrow> store \<times> (error + UrlAnalytics option)" where
  "getUrlAnalytics urlId d =
     (if refused d then (advance d, Inl StorageFault)
      else (advance d, Inr (find (\<lambda>a. an_urlId a = urlId) (urlAnalytics d))))"

subsection \<open>server/utils.ts\<close>

text \<open>\<^verbatim>\<open>String.prototype.includes\<close>, and \<^verbatim>\<open>toLowerCase\<close> on the ASCII letters.\<close>

fun str_includes :: "string \<Rightarrow> string \<Rightarrow> bool" where
  "str_includes [] sub = (sub = [])"
| "str_includes (c # cs) sub = (take (length sub) (c # cs) = sub \<or> str_includes cs sub)"

definition toLowerCase :: "string \<Rightarrow> string" where
  "toLowerCase s =
     map (\<lambda>c. case map_of (zip ''ABCDEFGHIJKLMNOPQRSTUVWXYZ'' ''abcdefghijklmnopqrstuvwxyz'') c of
                None \<Rightarrow> c | Some l \<Rightarrow> l) s"

definition parseUserAgent :: "string \<Rightarrow> string \<times> string \<times> string" where
  "parseUserAgent agent =
     (let ua = toLowerCase agent;
          browser =
            (if str_includes ua ''chrome'' \<and> \<not> str_includes ua ''edg'' then ''Chrome''
             else if str_includes ua ''firefox'' then ''Firefox''
             else if str_includes ua ''safari'' \<and> \<not> str_includes ua ''chrome'' then ''Safari''
             else if str_includes ua ''edg'' then ''Edge''
             else if str_includes ua ''opera'' \<or> str_includes ua ''opr'' then ''Opera''
             else ''Unknown'');
          os =
            (if str_includes ua ''windows'' then ''Windows''
             else if str_includes ua ''mac'' then ''macOS''
             else if str_includes ua ''linux'' then ''Linux''
             else if str_includes ua ''android'' then ''Android''
             else if str_includes ua ''ios'' \<or> str_includes ua ''iphone'' \<or> str_includes ua ''ipad'' then ''iOS''
             else ''Unknown'');
          device =
            (if str_includes ua ''mobile'' \<or> str_includes ua ''android'' \<or> str_includes ua ''iphone'' then ''Mobile''
             else if str_includes ua ''tablet'' \<or> str_includes ua ''ipad'' then ''Tablet''
             else ''Desktop'')
      in (browser, os, device))"

text \<open>
  \<^verbatim>\<open>extractDomain\<close>. \<open>hostname\<close> stands for \<^verbatim>\<open>new URL(url).hostname\<close>: \<open>None\<close> when the
  constructor throws.
\<close>

definition extractDomain :: "(string \<Rightarrow> string option) \<Rightarrow> string \<Rightarrow> string" where
  "extractDomain hostname url = (case hostname url of Some h \<Rightarrow> h | None \<Rightarrow> ''Direct'')"

subsection \<open>Routes (server/routes.ts)\<close>

text \<open>
  What a handler reads of the request: the user that \<^verbatim>\<open>authenticateToken\<close> attached
  (the user's id, or \<open>None\<close>), protocol and host, the two headers of the redirect route,
  the addresses, and the path parameter (\<^verbatim>\<open>:shortCode\<close> or \<^verbatim>\<open>:id\<close>).
\<close>

record request =
  req_user :: "string option"
  req_protocol :: string
  req_host :: string
  hdr_user_agent :: "string option"
  hdr_referer :: "string option"
  req_ip :: "string option"
  remoteAddress :: "string option"
  param :: string

text \<open>
  What a handler takes from outside the program: the clock, the two next results of
  \<^verbatim>\<open>gen_random_uuid()\<close>, the results of the successive calls of \<^verbatim>\<open>nanoid(8)\<close>,
  \<^verbatim>\<open>QRCode.toDataURL\<close> and \<^verbatim>\<open>new URL(_).hostname\<close> (\<open>None\<close> when they throw).
\<close>

record env =
  now :: timestamp
  uuids :: "string \<times> string"
  nanoid8 :: "nat \<Rightarrow> string"
  toDataURL :: "string \<Rightarrow> string option"
  hostname :: "string \<Rightarrow> string option"

text \<open>
  A response: a status with a message (\<^verbatim>\<open>res.status(n).json({message})\<close> or
  \<^verbatim>\<open>.send(text)\<close>), a redirect, or the JSON of a link with its short URL.
\<close>

datatype response =
    Message nat string
  | Redirect nat string
  | LinkJson Url string

text \<open>JavaScript's \<^verbatim>\<open>s || fallback\<close> on an optional string: absent and empty are falsy.\<close>

definition truthy :: "string option \<Rightarrow> bool" where
  "truthy v = (case v of None \<Rightarrow> False | Some s \<Rightarrow> s \<noteq> [])"

definition or_else :: "string option \<Rightarrow> string \<Rightarrow> string" where
  "or_else v fb = (if truthy v then coalesce v fb else fb)"

definition short_url :: "request \<Rightarrow> string \<Rightarrow> string" where
  "short_url req code = req_protocol req @ ''://'' @ req_host req @ ''/'' @ code"

text \<open>
  \<^verbatim>\<open>POST /api/urls\<close>. \<open>parsed\<close> is the outcome of \<^verbatim>\<open>insertUrlSchema.parse(req.body)\<close>:
  the first message of the \<^verbatim>\<open>ZodError\<close>, or the validated data. A handler returns the
  store, the response and the lines it wrote with \<^verbatim>\<open>console.error\<close>.
\<close>

definition post_urls :: "env \<Rightarrow> request \<Rightarrow> string + InsertUrl \<Rightarrow> store \<Rightarrow> store \<times> response \<times> string list" where
  "post_urls e req parsed d =
     (case parsed of
        Inl msg \<Rightarrow> (d, Message 400 msg, [''URL creation error:''])
      | Inr validatedData \<Rightarrow>
          (case (if truthy (in_customAlias validatedData)
                 then checkCustomAlias (or_else (in_customAlias validatedData) []) d
                 else (d, Inr False)) of
             (d1, Inl err) \<Rightarrow> (d1, Message 500 ''Failed to create short URL'', [''URL creation error:''])
           | (d1, Inr True) \<Rightarrow> (d1, Message 400 ''Custom alias is already taken'', [])
           | (d1, Inr False) \<Rightarrow>
               (let code = or_else (in_customAlias validatedData) (nanoid8 e 0);
                    shortUrl = short_url req code
                in case toDataURL e shortUrl of
                     None \<Rightarrow> (d1, Message 500 ''Failed to create short URL'',
                               [''Error generating QR code:'', ''URL creation error:''])
                   | Some qrCodeDataUrl \<Rightarrow>
                       (case createUrl (uuids e) (now e)
                               (nanoid8 e (if truthy (in_customAlias validatedData) then 0 else 1))
                               (validatedData\<lparr>in_shortCode := Some code, in_userId := req_user req,
                                               in_qrCodeUrl := Some qrCodeDataUrl\<rparr>) d1 of
                          (d2, Inl err) \<Rightarrow> (d2, Message 500 ''Failed to create short URL'', [''URL creation error:''])
                        | (d2, Inr url) \<Rightarrow> (d2, LinkJson url shortUrl, [])))))"

text \<open>
  \<^verbatim>\<open>PUT /api/urls/:id\<close>, behind \<^verbatim>\<open>requireAuth\<close>. \<open>body\<close> is \<^verbatim>\<open>req.body\<close>, passed to
  \<^verbatim>\<open>updateUrl\<close> as it comes (its parameter type is \<^verbatim>\<open>Partial<InsertUrl>\<close>).
\<close>

definition new_alias :: "UrlUpdates \<Rightarrow> Url \<Rightarrow> string option" where
  "new_alias body url =
     (case up_customAlias body of
        Some (Some a) \<Rightarrow> if a \<noteq> [] \<and> customAlias url \<noteq> Some a then Some a else None
      | _ \<Rightarrow> None)"

definition put_url :: "env \<Rightarrow> request \<Rightarrow> UrlUpdates \<Rightarrow> store \<Rightarrow> store \<times> response \<times> string list" where
  "put_url e req body d =
     (case req_user req of
        None \<Rightarrow> (d, Message 401 ''Authentication required'', [])
      | Some uid \<Rightarrow>
          (case getUrlById (param req) d of
             (d1, Inl err) \<Rightarrow> (d1, Message 500 ''Failed to update URL'', [''Error updating URL:''])
           | (d1, Inr None) \<Rightarrow> (d1, Message 404 ''URL not found'', [])
           | (d1, Inr (Some (url, _))) \<Rightarrow>
               if userId url = Some uid then
                 (case (case new_alias body url of
                          None \<Rightarrow> (d1, Inr False)
                        | Some a \<Rightarrow> checkCustomAlias a d1) of
                    (d2, Inl err) \<Rightarrow> (d2, Message 500 ''Failed to update URL'', [''Error updating URL:''])
                  | (d2, Inr True) \<Rightarrow> (d2, Message 400 ''Custom alias is already taken'', [])
                  | (d2, Inr False) \<Rightarrow>
                      (let updates = (case new_alias body url of
                                        None \<Rightarrow> body
                                      | Some a \<Rightarrow> body\<lparr>up_shortCode := Some a\<rparr>)
                       in case updateUrl (now e) (param req) updates d2 of
                            (d3, Inl err) \<Rightarrow> (d3, Message 500 ''Failed to update URL'', [''Error updating URL:''])
                          | (d3, Inr None) \<Rightarrow> (d3, Message 500 ''Failed to update URL'', [''Error updating URL:''])
                          | (d3, Inr (Some updatedUrl)) \<Rightarrow>
                              (d3, LinkJson updatedUrl (short_url req (shortCode updatedUrl)), [])))
               else (d1, Message 404 ''URL not found'', [])))"

text \<open>\<^verbatim>\<open>DELETE /api/urls/:id\<close>, behind \<^verbatim>\<open>requireAuth\<close>.\<close>

definition delete_url :: "request \<Rightarrow> store \<Rightarrow> store \<times> response \<times> string list" where
  "delete_url req d =
     (case req_user req of
        None \<Rightarrow> (d, Message 401 ''Authentication required'', [])
      | Some uid \<Rightarrow>
          (case getUrlById (param req) d of
             (d1, Inl err) \<Rightarrow> (d1, Message 500 ''Failed to delete URL'', [''Error deleting URL:''])
           | (d1, Inr None) \<Rightarrow> (d1, Message 404 ''URL not found'', [])
           | (d1, Inr (Some (url, _))) \<Rightarrow>
               if userId url = Some uid then
                 (case deleteUrl (param req) d1 of
                    (d2, Inl err) \<Rightarrow> (d2, Message 500 ''Failed to delete URL'', [''Error deleting URL:''])
                  | (d2, Inr _) \<Rightarrow> (d2, Message 200 ''URL deleted successfully'', []))
               else (d1, Message 404 ''URL not found'', [])))"

text \<open>
  \<^verbatim>\<open>GET /:shortCode\<close>. \<open>click_of\<close> is the argument the handler gives \<^verbatim>\<open>recordClick\<close>;
  the handler also computes \<^verbatim>\<open>extractDomain(req.headers.referer || '')\<close> into a constant
  that it does not use afterwards.
\<close>

definition click_of :: "request \<Rightarrow> Url \<Rightarrow> InsertUrlClick" where
  "click_of req url =
     (let userAgent = or_else (hdr_user_agent req) [];
          (browser, os, device) = parseUserAgent userAgent;
          ipAddress = or_else (req_ip req) (or_else (remoteAddress req) []);
          country = ''US''
      in \<lparr>ic_urlId = url_id url, ic_ipAddress = Some ipAddress, ic_userAgent = Some userAgent,
          ic_referer = (if truthy (hdr_referer req) then hdr_referer req else None),
          ic_country = Some country, ic_city = None, ic_device = Some device,
          ic_browser = Some browser, ic_os = Some os\<rparr>)"

definition get_shortCode :: "env \<Rightarrow> request \<Rightarrow> store \<Rightarrow> store \<times> response \<times> string list" where
  "get_shortCode e req d =
     (case getUrl (param req) d of
        (d1, Inl err) \<Rightarrow> (d1, Message 500 ''Server error'', [''Redirect error:''])
      | (d1, Inr None) \<Rightarrow> (d1, Message 404 ''URL not found'', [])
      | (d1, Inr (Some url)) \<Rightarrow>
          (let referer = extractDomain (hostname e) (or_else (hdr_referer req) [])
           in case recordClick (uuids e) (now e) (click_of req url) d1 of
                (d2, Inl err) \<Rightarrow> (d2, Message 500 ''Server error'', [''Redirect error:''])
              | (d2, Inr _) \<Rightarrow> (d2, Redirect 301 (originalUrl url), [])))"

subsection \<open>The stores the program can reach\<close>

text \<open>
  The tables are written by five operations of \<^verbatim>\<open>DatabaseStorage\<close> only, each from any
  arguments and under any schedule of refusals. The reads (\<^verbatim>\<open>getUrl\<close>, \<^verbatim>\<open>getUrlById\<close>,
  \<^verbatim>\<open>checkCustomAlias\<close>, \<^verbatim>\<open>getUrlAnalytics\<close>) only consume the schedule.
\<close>

inductive reachable :: "store \<Rightarrow> bool" where
  r_empty: "reachable \<lparr>urls = [], urlClicks = [], urlAnalytics = [], faults = fs\<rparr>"
| r_faults: "reachable d \<Longrightarrow> reachable (d\<lparr>faults := fs\<rparr>)"
| r_createUrl: "reachable d \<Longrightarrow> reachable (fst (createUrl ids t gen ins d))"
| r_updateUrl: "reachable d \<Longrightarrow> reachable (fst (updateUrl t i ups d))"
| r_deleteUrl: "reachable d \<Longrightarrow> reachable (fst (deleteUrl i d))"
| r_recordClick: "reachable d \<Longrightarrow> reachable (fst (recordClick ids t insertClick d))"
| r_updateUrlAnalytics: "reachable d \<Longrightarrow> reachable (fst (updateUrlAnalytics a t i d))"



text \<open>
  The constraints of the table \<^verbatim>\<open>urls\<close> that the claims lean on: the primary key, the
  unique \<^verbatim>\<open>short_code\<close> and its length.
\<close>

definition urls_inv :: "store \<Rightarrow> bool" where
  "urls_inv d = (distinct (map url_id (urls d)) \<and> distinct (map shortCode (urls d)) \<and>
                 list_all (\<lambda>c. length c \<le> 12) (map shortCode (urls d)))"

subsection \<open>Sample requests\<close>

text \<open>
  An empty database; alice creates a link without an alias (\<open>store1\<close>); the link is
  visited once, without a \<^verbatim>\<open>Referer\<close> header (\<open>env1\<close>, \<open>store2\<close>).
\<close>

definition store0 :: store where
  "store0 = \<lparr>urls = [], urlClicks = [], urlAnalytics = [], faults = []\<rparr>"

definition body0 :: InsertUrl where
  "body0 = \<lparr>in_originalUrl = ''https://example.com/a'', in_shortCode = Some ''ignored'',
            in_customAlias = None, in_title = None, in_description = None, in_userId = None,
            in_isActive = None, in_qrCodeUrl = None, in_expiresAt = None\<rparr>"

definition env0 :: env where
  "env0 = \<lparr>now = 1000, uuids = (''u1'', ''a1''), nanoid8 = (\<lambda>n. ''abc12345''),
           toDataURL = (\<lambda>u. Some (''data:'' @ u)),
           hostname = (\<lambda>u. if u = ''https://example.com/page'' then Some ''example.com'' else None)\<rparr>"

definition req0 :: request where
  "req0 = \<lparr>req_user = Some ''alice'', req_protocol = ''https'', req_host = ''sho.rt'',
           hdr_user_agent = Some ''Mozilla/5.0 Chrome/115 Safari/537'', hdr_referer = None,
           req_ip = Some ''10.0.0.1'', remoteAddress = None, param = ''abc12345''\<rparr>"

definition store1 :: store where
  "store1 = fst (post_urls env0 req0 (Inr body0) store0)"

definition env1 :: env where
  "env1 = env0\<lparr>now := 2000, uuids := (''c1'', ''a2'')\<rparr>"

definition store2 :: store where
  "store2 = fst (get_shortCode env1 req0 store1)"

text \<open>
  A link stored by \<^verbatim>\<open>createUrl\<close> with an expiry time that has passed at the clock of
  \<open>env1\<close> (\<open>store_expired\<close>); the sample link deleted by its owner (\<open>store_retired\<close>).
\<close>

definition store_expired :: store where
  "store_expired =
     fst (createUrl (''u1'', ''a1'') 1000 ''zzzzzzzz''
            \<lparr>in_originalUrl = ''https://example.com/a'', in_shortCode = Some ''abc12345'',
             in_customAlias = None, in_title = None, in_description = None,
             in_userId = Some ''alice'', in_isActive = None, in_qrCodeUrl = None,
             in_expiresAt = Some 500\<rparr>
            store0)"

definition store_retired :: store where
  "store_retired = fst (delete_url (req0\<lparr>param := ''u1''\<rparr>) store1)"

text \<open>
  A second creation request, whose first generated code is the sample link's and whose
  later codes are free (\<open>env2\<close>); a creation request asking for the sample link's code as
  its alias (\<open>body_alias\<close>); an update that asks for the alias \<^verbatim>\<open>promo\<close> (\<open>body_promo\<close>).
\<close>

definition env2 :: env where
  "env2 = env0\<lparr>now := 5000, uuids := (''u2'', ''a2''),
               nanoid8 := (\<lambda>n. if n = 0 then ''abc12345'' else ''zzzzzzzz'')\<rparr>"

definition body_alias :: InsertUrl where
  "body_alias = body0\<lparr>in_customAlias := Some ''abc12345''\<rparr>"



section \<open>Properties\<close>

subsection \<open>Statements and tables\<close>

lemma advance_tables [simp]:
  "urls (advance d) = urls d" "urlClicks (advance d) = urlClicks d"
  "urlAnalytics (advance d) = urlAnalytics d"
  by (simp_all add: advance_def)

lemma clicksData_select_nested:
  "map fst (filter (\<lambda>item. nested_aggregate (snd item)) clicksData_select) =
     [''countries'', ''devices'', ''browsers'', ''referers'', ''dailyClicks'']"
  by (simp add: clicksData_select_def)

lemma select_clicksData_refused:
  "select_clicksData urlId d = (advance d, Inl (if refused d then StorageFault else GroupingError))"
  by (simp add: select_clicksData_def)

lemma updateUrlAnalytics_refused:
  "updateUrlAnalytics a t urlId d = (advance d, Inl (if refused d then StorageFault else GroupingError))"
  by (simp add: updateUrlAnalytics_def select_clicksData_refused)

lemma updateUrlAnalytics_tables:
  "urls (fst (updateUrlAnalytics a t urlId d)) = urls d"
  "urlClicks (fst (updateUrlAnalytics a t urlId d)) = urlClicks d"
  "urlAnalytics (fst (updateUrlAnalytics a t urlId d)) = urlAnalytics d"
  by (simp_all add: updateUrlAnalytics_refused)


lemma recordClick_fails: "snd (recordClick ids t ins d) \<noteq> Inr ()"
proof -
  obtain d1 x where ic: "insert_click (fst ids) t ins d = (d1, x)"
    by (cases "insert_click (fst ids) t ins d")
  show ?thesis
    using ic by (cases x) (simp_all add: recordClick_def updateUrlAnalytics_refused)
qed


subsection \<open>Snapshots stay as they were created\<close>

lemma empty_analytics_sel [simp]:
  "an_urlId (empty_analytics a t i) = i"
  "an_id (empty_analytics a t i) = a"
  "totalClicks (empty_analytics a t i) = Some 0"
  by (simp_all add: empty_analytics_def)






subsection \<open>The routes stay among the reachable stores\<close>

lemma reachable_advance: "reachable d \<Longrightarrow> reachable (advance d)"
  unfolding advance_def by (rule r_faults)

lemma read_store:
  "fst (getUrl c d) = advance d" "fst (getUrlById i d) = advance d"
  "fst (checkCustomAlias al d) = advance d" "fst (getUrlAnalytics i d) = advance d"
  by (simp_all add: getUrl_def getUrlById_def checkCustomAlias_def getUrlAnalytics_def)


lemma reachable_post_urls:
  assumes "reachable d" shows "reachable (fst (post_urls e req parsed d))"
proof (cases parsed)
  case (Inl msg)
  with assms show ?thesis by (simp add: post_urls_def)
next
  case (Inr v)
  define chk where "chk = (if truthy (in_customAlias v)
                 then checkCustomAlias (or_else (in_customAlias v) []) d
                 else (d, Inr False))"
  obtain d1 x where c: "chk = (d1, x)" by (cases chk)
  have d1: "reachable d1"
    using c assms reachable_advance[OF assms] read_store(3)[of "or_else (in_customAlias v) []" d]
    by (auto simp add: chk_def split: if_splits)
  have cr: "\<And>g ins. reachable (fst (createUrl (uuids e) (now e) g ins d1))"
    by (rule r_createUrl[OF d1])
  show ?thesis
    using Inr c[unfolded chk_def] d1 cr
    by (auto simp add: post_urls_def Let_def split: prod.splits sum.splits bool.splits option.splits)
       (metis fst_conv)+
qed

lemma reachable_delete_url:
  assumes "reachable d" shows "reachable (fst (delete_url req d))"
proof -
  obtain d1 x where g: "getUrlById (param req) d = (d1, x)" by (cases "getUrlById (param req) d")
  have d1: "reachable d1" using read_store(2)[of "param req" d] g reachable_advance[OF assms] by simp
  have "reachable (fst (deleteUrl (param req) d1))" by (rule r_deleteUrl[OF d1])
  with g d1 assms show ?thesis
    by (auto simp add: delete_url_def split: prod.splits sum.splits option.splits)
qed

lemma reachable_put_url:
  assumes "reachable d" shows "reachable (fst (put_url e req body d))"
proof -
  obtain d1 x where g: "getUrlById (param req) d = (d1, x)" by (cases "getUrlById (param req) d")
  have d1: "reachable d1" using read_store(2)[of "param req" d] g reachable_advance[OF assms] by simp
  have d2: "\<And>al. reachable (fst (checkCustomAlias al d1))"
    using reachable_advance[OF d1] by (simp add: read_store)
  have up: "\<And>d2 ups. reachable d2 \<Longrightarrow> reachable (fst (updateUrl (now e) (param req) ups d2))"
    by (rule r_updateUrl)
  show ?thesis
  proof (cases "req_user req")
    case None
    with assms show ?thesis by (simp add: put_url_def)
  next
    case (Some uid)
    show ?thesis
    proof (cases x)
      case (Inl err)
      with Some g d1 show ?thesis by (simp add: put_url_def)
    next
      case (Inr found)
      show ?thesis
      proof (cases found)
        case None
        with Some g d1 Inr show ?thesis by (simp add: put_url_def)
      next
        case (Some pr)
        obtain url an where pr: "pr = (url, an)" by (cases pr)
        define chk where "chk = (case new_alias body url of None \<Rightarrow> (d1, Inr False) | Some a \<Rightarrow> checkCustomAlias a d1)"
        obtain d2' y where c: "chk = (d2', y)" by (cases chk)
        have r2: "reachable d2'"
          using c d1 d2 by (auto simp add: chk_def split: option.splits) (metis fst_conv)
        from up[OF r2] c[unfolded chk_def] r2 d1 g Inr Some pr \<open>req_user req = Some uid\<close>
        show ?thesis
          by (auto simp add: put_url_def Let_def split: prod.splits sum.splits bool.splits option.splits if_splits)
             (metis fst_conv)+
      qed
    qed
  qed
qed


lemma reachable_store1: "reachable store1"
  unfolding store1_def store0_def by (intro reachable_post_urls r_empty)


lemma reachable_store_retired: "reachable store_retired"
  unfolding store_retired_def by (intro reachable_delete_url reachable_store1)

subsection \<open>The recomputed total\<close>

text \<open>
  C1, at a failing input: the sample link visited once. \<^verbatim>\<open>recordClick\<close> stores the click
  and calls \<^verbatim>\<open>updateUrlAnalytics\<close>, whose aggregate query is refused (42803): the route
  answers 500, the link has one row in \<^verbatim>\<open>url_clicks\<close> and its snapshot still shows
  \<^verbatim>\<open>totalClicks = 0\<close>. Running \<^verbatim>\<open>updateUrlAnalytics\<close> again for the link is refused again
  and leaves the 0.
\<close>

theorem totalClicks_stays_zero:
  "snd (get_shortCode env1 req0 store1) = (Message 500 ''Server error'', [''Redirect error:'']) \<and>
   length (filter (\<lambda>c. click_urlId c = ''u1'') (urlClicks store2)) = 1 \<and>
   map an_urlId (urlAnalytics store2) = [''u1''] \<and>
   map totalClicks (urlAnalytics store2) = [Some 0] \<and>
   snd (updateUrlAnalytics ''a3'' 3000 ''u1'' store2) = Inl GroupingError \<and>
   length (filter (\<lambda>c. click_urlId c = ''u1'')
             (urlClicks (fst (updateUrlAnalytics ''a3'' 3000 ''u1'' store2)))) = 1 \<and>
   map totalClicks (urlAnalytics (fst (updateUrlAnalytics ''a3'' 3000 ''u1'' store2))) = [Some 0]"
  by code_simp

subsection \<open>A link without clicks\<close>

text \<open>
  C10. For a link with no row in \<^verbatim>\<open>url_clicks\<close>, \<^verbatim>\<open>updateUrlAnalytics\<close> writes nothing:
  the three tables, and with them the link's snapshot row and its \<^verbatim>\<open>updatedAt\<close>, are the
  ones it found.
\<close>

theorem updateUrlAnalytics_no_clicks:
  assumes "filter (\<lambda>c. click_urlId c = urlId) (urlClicks d) = []"
  shows "urlAnalytics (fst (updateUrlAnalytics a t urlId d)) = urlAnalytics d \<and>
         urls (fst (updateUrlAnalytics a t urlId d)) = urls d \<and>
         urlClicks (fst (updateUrlAnalytics a t urlId d)) = urlClicks d"
  by (simp add: updateUrlAnalytics_tables)

theorem updateUrlAnalytics_no_clicks_witness:
  "filter (\<lambda>c. click_urlId c = ''u1'') (urlClicks store1) = [] \<and>
   urlAnalytics (fst (updateUrlAnalytics ''a3'' 3000 ''u1'' store1)) = [empty_analytics ''a1'' 1000 ''u1''] \<and>
   snd (updateUrlAnalytics ''a3'' 3000 ''u1'' store1) = Inl GroupingError"
proof -
  have h: "filter (\<lambda>c. click_urlId c = ''u1'') (urlClicks store1) = []"
    by code_simp
  have a: "urlAnalytics store1 = [empty_analytics ''a1'' 1000 ''u1'']"
    by code_simp
  have r: "snd (updateUrlAnalytics ''a3'' 3000 ''u1'' store1) = Inl GroupingError"
    by code_simp
  from updateUrlAnalytics_no_clicks[OF h, of "''a3''" 3000] h a r show ?thesis
    by simp
qed

subsection \<open>Recomputing twice\<close>

text \<open>
  C3. When \<^verbatim>\<open>updateUrlAnalytics\<close> runs twice in a row for a link, with nothing in between,
  the table of snapshots after the second run is the table after the first run, row by
  row and field by field, \<^verbatim>\<open>updatedAt\<close> included: neither run gets past the aggregate
  query, so neither writes.
\<close>

theorem updateUrlAnalytics_idempotent:
  "urlAnalytics (fst (updateUrlAnalytics a2 t2 urlId (fst (updateUrlAnalytics a1 t1 urlId d)))) =
     urlAnalytics (fst (updateUrlAnalytics a1 t1 urlId d)) \<and>
   urls (fst (updateUrlAnalytics a2 t2 urlId (fst (updateUrlAnalytics a1 t1 urlId d)))) =
     urls (fst (updateUrlAnalytics a1 t1 urlId d)) \<and>
   urlClicks (fst (updateUrlAnalytics a2 t2 urlId (fst (updateUrlAnalytics a1 t1 urlId d)))) =
     urlClicks (fst (updateUrlAnalytics a1 t1 urlId d))"
  by (simp add: updateUrlAnalytics_tables)

subsection \<open>The dimensional maps\<close>



subsection \<open>The redirect route\<close>

text \<open>
  C4 (as amended). For a request whose lookup found a link, the handler awaits
  \<^verbatim>\<open>recordClick\<close> before it answers: when recording and recomputation both end well the
  answer is the 301 redirect to the link's original URL; when either fails, the handler
  logs \<^verbatim>\<open>Redirect error:\<close> and answers 500 \<^verbatim>\<open>Server error\<close>.
\<close>

theorem get_shortCode_resolved:
  assumes "getUrl (param req) d = (d1, Inr (Some url))"
  shows "snd (get_shortCode e req d) =
           (case snd (recordClick (uuids e) (now e) (click_of req url) d1) of
              Inl err \<Rightarrow> (Message 500 ''Server error'', [''Redirect error:''])
            | Inr done \<Rightarrow> (Redirect 301 (originalUrl url), [])) \<and>
         fst (get_shortCode e req d) = fst (recordClick (uuids e) (now e) (click_of req url) d1) \<and>
         (refused d1 \<longrightarrow> snd (get_shortCode e req d) = (Message 500 ''Server error'', [''Redirect error:'']))"
proof -
  have "refused d1 \<longrightarrow> snd (recordClick (uuids e) (now e) (click_of req url) d1) = Inl StorageFault"
    by (simp add: recordClick_def insert_click_def)
  with assms show ?thesis
    by (auto simp add: get_shortCode_def Let_def split: prod.splits sum.splits)
qed

theorem get_shortCode_resolved_witness:
  "getUrl (param req0) store1 = (advance store1, Inr (Some (hd (urls store1)))) \<and>
   snd (recordClick (uuids env1) (now env1) (click_of req0 (hd (urls store1))) (advance store1)) =
     Inl GroupingError \<and>
   snd (get_shortCode env1 req0 store1) = (Message 500 ''Server error'', [''Redirect error:'']) \<and>
   fst (get_shortCode env1 req0 store1) =
     fst (recordClick (uuids env1) (now env1) (click_of req0 (hd (urls store1))) (advance store1))"
proof -
  have g: "getUrl (param req0) store1 = (advance store1, Inr (Some (hd (urls store1))))"
    by code_simp
  have r: "snd (recordClick (uuids env1) (now env1) (click_of req0 (hd (urls store1))) (advance store1)) =
     Inl GroupingError"
    by code_simp
  from get_shortCode_resolved[OF g, of env1] g r show ?thesis by simp
qed

text \<open>
  The claim as stated, that the redirect is served even if recording or aggregation
  fails, is false: the lookup of the sample link succeeds, and a refusal of the insert
  into \<^verbatim>\<open>url_clicks\<close>, or of the aggregate query after the click was stored, turns the
  answer into the 500. In the second case the click row stays and the snapshot still
  shows no click.
\<close>

theorem get_shortCode_recorder_failure_counterexample:
  "snd (getUrl (param req0) (store1\<lparr>faults := [False, True]\<rparr>)) = Inr (Some (hd (urls store1))) \<and>
   snd (get_shortCode env1 req0 (store1\<lparr>faults := [False, True]\<rparr>)) =
     (Message 500 ''Server error'', [''Redirect error:'']) \<and>
   snd (get_shortCode env1 req0 (store1\<lparr>faults := [False, False, True]\<rparr>)) =
     (Message 500 ''Server error'', [''Redirect error:'']) \<and>
   length (urlClicks (fst (get_shortCode env1 req0 (store1\<lparr>faults := [False, False, True]\<rparr>)))) = 1 \<and>
   map totalClicks (urlAnalytics (fst (get_shortCode env1 req0 (store1\<lparr>faults := [False, False, True]\<rparr>)))) = [Some 0] \<and>
   snd (getUrl (param req0) store1) = Inr (Some (hd (urls store1))) \<and>
   snd (get_shortCode env1 req0 store1) = (Message 500 ''Server error'', [''Redirect error:'']) \<and>
   length (urlClicks (fst (get_shortCode env1 req0 store1))) = 1"
  by code_simp

subsection \<open>The lookup\<close>

lemma find_Some_props: "find P xs = Some x \<Longrightarrow> x \<in> set xs \<and> P x"
  by (induction xs) (auto split: if_splits)

text \<open>
  C5 (as amended). \<^verbatim>\<open>getUrl\<close> returns a link only if the link has that short code and
  \<^verbatim>\<open>isActive = true\<close>, and returns nothing exactly when no such link exists; it does not
  read \<^verbatim>\<open>expiresAt\<close>. When it returns nothing the redirect route answers 404.
\<close>

theorem getUrl_active_only:
  assumes "getUrl code d = (d', Inr found)"
  shows "(case found of
            Some u \<Rightarrow> u \<in> set (urls d) \<and> shortCode u = code \<and> isActive u = Some True
          | None \<Rightarrow> \<not> list_ex (\<lambda>u. shortCode u = code \<and> isActive u = Some True) (urls d)) \<and>
         (found = None \<longrightarrow> param req = code \<longrightarrow>
            snd (get_shortCode e req d) = (Message 404 ''URL not found'', []))"
proof -
  from assms have f: "found = find (\<lambda>u. shortCode u = code \<and> isActive u = Some True) (urls d)"
    by (auto simp add: getUrl_def split: if_splits)
  have 1: "case found of
            Some u \<Rightarrow> u \<in> set (urls d) \<and> shortCode u = code \<and> isActive u = Some True
          | None \<Rightarrow> \<not> list_ex (\<lambda>u. shortCode u = code \<and> isActive u = Some True) (urls d)"
    unfolding f
    by (auto split: option.splits simp add: find_None_iff list_ex_iff dest: find_Some_props)
  have 2: "found = None \<longrightarrow> param req = code \<longrightarrow>
            snd (get_shortCode e req d) = (Message 404 ''URL not found'', [])"
    using assms by (cases found) (auto simp add: get_shortCode_def)
  from 1 2 show ?thesis by simp
qed

theorem getUrl_active_only_witness:
  "getUrl ''abc12345'' store_retired = (advance store_retired, Inr None) \<and>
   map isActive (urls store_retired) = [Some False] \<and>
   snd (get_shortCode env1 req0 store_retired) = (Message 404 ''URL not found'', [])"
proof -
  have g: "getUrl ''abc12345'' store_retired = (advance store_retired, Inr None)"
    by code_simp
  have p: "param req0 = ''abc12345''"
    by code_simp
  have a: "map isActive (urls store_retired) = [Some False]"
    by code_simp
  from getUrl_active_only[OF g, of req0 env1] g p a show ?thesis by simp
qed

text \<open>
  The claim as stated, that an expired link is not returned, is false: a link stored
  with \<^verbatim>\<open>expiresAt = 500\<close> and \<^verbatim>\<open>isActive = true\<close> is returned by \<^verbatim>\<open>getUrl\<close> at clock 2000.
\<close>

theorem getUrl_expired_counterexample:
  "map expiresAt (urls store_expired) = [Some 500] \<and> (500::int) < now env1 \<and>
   map isActive (urls store_expired) = [Some True] \<and>
   map_sum id (map_option expiresAt) (snd (getUrl ''abc12345'' store_expired)) = Inr (Some (Some 500)) \<and>
   map_sum id (map_option shortCode) (snd (getUrl ''abc12345'' store_expired)) = Inr (Some ''abc12345'')"
  by code_simp

subsection \<open>The stored referrer\<close>

text \<open>
  C8, at failing inputs: a visit with the header \<^verbatim>\<open>Referer: https://example.com/page\<close>.
  \<^verbatim>\<open>extractDomain\<close> gives the host name \<^verbatim>\<open>example.com\<close>, but the handler passes
  \<^verbatim>\<open>req.headers.referer || null\<close> to \<^verbatim>\<open>recordClick\<close>: the referrer stored in
  \<^verbatim>\<open>url_clicks\<close> is the whole header value. A header that does not parse, for which
  \<^verbatim>\<open>extractDomain\<close> gives \<^verbatim>\<open>Direct\<close>, is stored as it is.
\<close>

theorem stored_referer_not_hostname:
  "extractDomain (hostname env1) ''https://example.com/page'' = ''example.com'' \<and>
   map referer (urlClicks (fst (get_shortCode env1 (req0\<lparr>hdr_referer := Some ''https://example.com/page''\<rparr>) store1)))
     = [Some ''https://example.com/page''] \<and>
   extractDomain (hostname env1) ''not a url'' = ''Direct'' \<and>
   map referer (urlClicks (fst (get_shortCode env1 (req0\<lparr>hdr_referer := Some ''not a url''\<rparr>) store1)))
     = [Some ''not a url'']"
  by code_simp

subsection \<open>The constraints of the table of links\<close>

lemma varchar_Some: "varchar n s = Some c \<Longrightarrow> c = take n s \<and> length c \<le> n"
  by (auto simp add: varchar_def split: if_splits)

lemma varchar_fits: "length s \<le> n \<Longrightarrow> varchar n s = Some s"
  by (simp add: varchar_def)

lemma new_url_row_props:
  assumes "new_url_row i t code ins rows = Inr row"
  shows "url_id row = i \<and> varchar 12 code = Some (shortCode row) \<and>
         i \<notin> url_id ` set rows \<and> shortCode row \<notin> shortCode ` set rows"
  using assms
  by (auto simp add: new_url_row_def list_ex_iff split: option.splits if_splits)

lemma urls_inv_tables: "urls d' = urls d \<Longrightarrow> urls_inv d' = urls_inv d"
  by (simp add: urls_inv_def)

lemma urls_inv_cong:
  "map url_id (urls d') = map url_id (urls d) \<Longrightarrow> map shortCode (urls d') = map shortCode (urls d) \<Longrightarrow>
   urls_inv d' = urls_inv d"
  by (simp only: urls_inv_def)

lemma createUrl_urls:
  "urls (fst (createUrl ids t gen ins d)) = urls d \<or>
   (\<exists>code row. new_url_row (fst ids) t code ins (urls d) = Inr row \<and>
      urls (fst (createUrl ids t gen ins d)) = urls d @ [row])"
proof (cases "refused d")
  case True
  then show ?thesis by (simp add: createUrl_def Let_def)
next
  case False
  define code where "code = (case in_shortCode ins of None \<Rightarrow> gen | Some c \<Rightarrow> if c = [] then gen else c)"
  show ?thesis
  proof (cases "new_url_row (fst ids) t code ins (urls d)")
    case (Inl e)
    with False show ?thesis by (simp add: createUrl_def Let_def code_def)
  next
    case (Inr row)
    with False have "urls (fst (createUrl ids t gen ins d)) = urls d @ [row]"
      by (simp add: createUrl_def Let_def code_def)
    with Inr show ?thesis by blast
  qed
qed

lemma urls_inv_createUrl:
  assumes "urls_inv d" shows "urls_inv (fst (createUrl ids t gen ins d))"
  using createUrl_urls[of ids t gen ins d]
proof
  assume "urls (fst (createUrl ids t gen ins d)) = urls d"
  from urls_inv_tables[OF this] assms show ?thesis by simp
next
  assume "\<exists>code row. new_url_row (fst ids) t code ins (urls d) = Inr row \<and>
      urls (fst (createUrl ids t gen ins d)) = urls d @ [row]"
  then obtain code row where r: "new_url_row (fst ids) t code ins (urls d) = Inr row"
    and u: "urls (fst (createUrl ids t gen ins d)) = urls d @ [row]" by blast
  from new_url_row_props[OF r] have fresh: "url_id row \<notin> url_id ` set (urls d)"
    "shortCode row \<notin> shortCode ` set (urls d)" and v: "varchar 12 code = Some (shortCode row)"
    by simp_all
  from varchar_Some[OF v] have len: "length (shortCode row) \<le> 12" by simp
  from assms have a: "distinct (map url_id (urls d))" "distinct (map shortCode (urls d))"
    "list_all (\<lambda>c. length c \<le> 12) (map shortCode (urls d))"
    by (simp_all add: urls_inv_def)
  from a(1) fresh(1) have 1: "distinct (map url_id (urls d @ [row]))" by simp
  from a(2) fresh(2) have 2: "distinct (map shortCode (urls d @ [row]))" by simp
  from a(3) len have 3: "list_all (\<lambda>c. length c \<le> 12) (map shortCode (urls d @ [row]))" by simp
  from 1 2 3 show ?thesis unfolding urls_inv_def u by simp
qed

lemma apply_updates_sel [simp]:
  "url_id (apply_updates t ups u) = url_id u"
  "shortCode (apply_updates t ups u) = set_col (up_shortCode ups) (shortCode u)"
  by (simp_all add: apply_updates_def)

lemma fit_updates_shortCode:
  assumes "fit_updates updates = Some ups"
  shows "case up_shortCode updates of
           None \<Rightarrow> up_shortCode ups = None
         | Some c \<Rightarrow> (\<exists>c'. up_shortCode ups = Some c' \<and> varchar 12 c = Some c')"
proof -
  define A where "A = (case up_shortCode updates of None \<Rightarrow> Some None | Some c \<Rightarrow> map_option Some (varchar 12 c))"
  define B where "B = (case up_customAlias updates of None \<Rightarrow> Some None | Some v \<Rightarrow> map_option Some (varchar_opt 50 v))"
  define C where "C = (case up_title updates of None \<Rightarrow> Some None | Some v \<Rightarrow> map_option Some (varchar_opt 200 v))"
  from assms have "(case (A, B, C) of
        (Some c, Some al, Some ti) \<Rightarrow> Some (updates\<lparr>up_shortCode := c, up_customAlias := al, up_title := ti\<rparr>)
      | _ \<Rightarrow> None) = Some ups"
    unfolding fit_updates_def A_def B_def C_def .
  then obtain c al ti where A: "A = Some c"
    and ups: "ups = updates\<lparr>up_shortCode := c, up_customAlias := al, up_title := ti\<rparr>"
    by (cases A; cases B; cases C) auto
  from ups have "up_shortCode ups = c" by simp
  with A show ?thesis
    unfolding A_def by (cases "up_shortCode updates") (auto, metis)
qed

lemma distinct_after_update:
  assumes "distinct (map k xs)" and "distinct (map f xs)"
    and "\<forall>u\<in>set xs. k u \<noteq> i \<longrightarrow> f u \<noteq> c"
    and h1: "\<And>u. k u = i \<Longrightarrow> f (h u) = c" and h2: "\<And>u. k u \<noteq> i \<Longrightarrow> h u = u"
  shows "distinct (map f (map h xs))"
  using assms(1-3)
proof (induction xs)
  case Nil
  show ?case by simp
next
  case (Cons x xs)
  from Cons have IH: "distinct (map f (map h xs))" by simp
  show ?case
  proof (cases "k x = i")
    case True
    with Cons.prems(1) have others: "\<forall>u\<in>set xs. k u \<noteq> i" by (auto simp add: image_iff)
    with h2 have same: "map h xs = xs" by (simp add: map_idI)
    from Cons.prems(3) others have "c \<notin> set (map f xs)" by auto
    moreover from Cons.prems(2) have "distinct (map f xs)" by simp
    moreover have "f (h x) = c" using True by (rule h1)
    ultimately show ?thesis by (simp add: same)
  next
    case False
    with Cons.prems(3) have ne: "f x \<noteq> c" by simp
    from Cons.prems(2) have nin: "f x \<notin> f ` set xs" by simp
    have "\<forall>u\<in>set xs. f (h u) \<noteq> f x"
    proof
      fix u assume u: "u \<in> set xs"
      show "f (h u) \<noteq> f x"
      proof (cases "k u = i")
        case True
        from h1[OF this] ne show ?thesis by simp
      next
        case False
        from h2[OF this] nin u show ?thesis by (metis image_eqI)
      qed
    qed
    then have "f x \<notin> set (map f (map h xs))" by (auto simp add: image_iff)
    moreover have "h x = x" using False by (rule h2)
    ultimately show ?thesis using IH by simp
  qed
qed

lemma updateUrl_urls:
  "urls (fst (updateUrl t i updates d)) = urls d \<or>
   (\<exists>ups. fit_updates updates = Some ups \<and>
      (case up_shortCode ups of None \<Rightarrow> True | Some c \<Rightarrow> \<forall>u\<in>set (urls d). url_id u \<noteq> i \<longrightarrow> shortCode u \<noteq> c) \<and>
      urls (fst (updateUrl t i updates d)) = map (\<lambda>u. if url_id u = i then apply_updates t ups u else u) (urls d))"
proof (cases "\<not> refused d \<and> list_ex (\<lambda>u. url_id u = i) (urls d)")
  case False
  then show ?thesis by (auto simp add: updateUrl_def)
next
  case True
  show ?thesis
  proof (cases "fit_updates updates")
    case None
    with True show ?thesis by (simp add: updateUrl_def)
  next
    case (Some ups)
    show ?thesis
    proof (cases "case up_shortCode ups of None \<Rightarrow> False
                 | Some c \<Rightarrow> list_ex (\<lambda>u. shortCode u = c \<and> url_id u \<noteq> i) (urls d)")
      case True
      with \<open>\<not> refused d \<and> list_ex (\<lambda>u. url_id u = i) (urls d)\<close> Some show ?thesis
        by (simp add: updateUrl_def)
    next
      case False
      with \<open>\<not> refused d \<and> list_ex (\<lambda>u. url_id u = i) (urls d)\<close> Some
      have "urls (fst (updateUrl t i updates d)) = map (\<lambda>u. if url_id u = i then apply_updates t ups u else u) (urls d)"
        by (simp add: updateUrl_def Let_def)
      moreover from False
      have "case up_shortCode ups of None \<Rightarrow> True | Some c \<Rightarrow> \<forall>u\<in>set (urls d). url_id u \<noteq> i \<longrightarrow> shortCode u \<noteq> c"
        by (auto simp add: list_ex_iff split: option.splits)
      ultimately show ?thesis using Some by blast
    qed
  qed
qed

lemma urls_inv_updateUrl:
  assumes "urls_inv d" shows "urls_inv (fst (updateUrl t i updates d))"
  using updateUrl_urls[of t i updates d]
proof
  assume "urls (fst (updateUrl t i updates d)) = urls d"
  from urls_inv_tables[OF this] assms show ?thesis by simp
next
  assume "\<exists>ups. fit_updates updates = Some ups \<and>
      (case up_shortCode ups of None \<Rightarrow> True | Some c \<Rightarrow> \<forall>u\<in>set (urls d). url_id u \<noteq> i \<longrightarrow> shortCode u \<noteq> c) \<and>
      urls (fst (updateUrl t i updates d)) = map (\<lambda>u. if url_id u = i then apply_updates t ups u else u) (urls d)"
  then obtain ups where fit: "fit_updates updates = Some ups"
    and free: "case up_shortCode ups of None \<Rightarrow> True | Some c \<Rightarrow> \<forall>u\<in>set (urls d). url_id u \<noteq> i \<longrightarrow> shortCode u \<noteq> c"
    and u: "urls (fst (updateUrl t i updates d)) = map (\<lambda>u. if url_id u = i then apply_updates t ups u else u) (urls d)"
    by blast
  have ids: "map url_id (map (\<lambda>u. if url_id u = i then apply_updates t ups u else u) (urls d)) = map url_id (urls d)"
    by (simp add: comp_def if_distrib cong: if_cong)
  let ?rows = "map (\<lambda>u. if url_id u = i then apply_updates t ups u else u) (urls d)"
  show ?thesis
  proof (cases "up_shortCode ups")
    case None
    then have "map shortCode ?rows = map shortCode (urls d)"
      by (simp add: comp_def set_col_def if_distrib cong: if_cong)
    with ids u have "urls_inv (fst (updateUrl t i updates d)) = urls_inv d"
      by (intro urls_inv_cong) simp_all
    with assms show ?thesis by simp
  next
    case (Some c)
    from fit_updates_shortCode[OF fit] Some have len: "length c \<le> 12"
      by (auto split: option.splits dest: varchar_Some)
    from assms have a: "distinct (map url_id (urls d))" "distinct (map shortCode (urls d))"
      "list_all (\<lambda>c. length c \<le> 12) (map shortCode (urls d))"
      by (simp_all add: urls_inv_def)
    from free Some have fr: "\<forall>u\<in>set (urls d). url_id u \<noteq> i \<longrightarrow> shortCode u \<noteq> c" by simp
    have 2: "distinct (map shortCode ?rows)"
      by (rule distinct_after_update[where c = c and i = i, OF a(1) a(2) fr]) (simp_all add: Some set_col_def)
    have 3: "list_all (\<lambda>c. length c \<le> 12) (map shortCode ?rows)"
      using a(3) len by (simp add: list_all_iff Some set_col_def)
    from ids a(1) have 1: "distinct (map url_id ?rows)" by (simp only:)
    from 1 2 3 show ?thesis unfolding urls_inv_def u by (intro conjI)
  qed
qed

lemma urls_inv_deleteUrl:
  assumes "urls_inv d" shows "urls_inv (fst (deleteUrl i d))"
proof -
  have "map url_id (urls (fst (deleteUrl i d))) = map url_id (urls d)"
       "map shortCode (urls (fst (deleteUrl i d))) = map shortCode (urls d)"
    by (simp_all add: deleteUrl_def comp_def if_distrib cong: if_cong)
  then have "urls_inv (fst (deleteUrl i d)) = urls_inv d"
    by (rule urls_inv_cong)
  with assms show ?thesis by simp
qed

lemma recordClick_urls: "urls (fst (recordClick ids t ins d)) = urls d"
proof -
  have "urls (fst (insert_click (fst ids) t ins d)) = urls d"
    by (simp add: insert_click_def split: sum.splits)
  then show ?thesis
    by (auto simp add: recordClick_def updateUrlAnalytics_tables split: prod.splits sum.splits)
qed

lemma reachable_urls_inv: "reachable d \<Longrightarrow> urls_inv d"
proof (induction rule: reachable.induct)
  case (r_empty fs)
  show ?case by (simp add: urls_inv_def)
next
  case (r_faults d fs)
  then show ?case by (simp add: urls_inv_def)
next
  case (r_recordClick d ids t insertClick)
  then show ?case by (simp add: urls_inv_tables[OF recordClick_urls])
next
  case (r_updateUrlAnalytics d a t i)
  then show ?case by (simp add: urls_inv_tables[OF updateUrlAnalytics_tables(1)])
qed (simp_all add: urls_inv_createUrl urls_inv_updateUrl urls_inv_deleteUrl)

subsection \<open>Creating a link under a code that is taken\<close>

lemma new_url_row_taken:
  assumes "varchar 12 code = Some c" and "list_ex (\<lambda>u. shortCode u = c) rows"
  shows "new_url_row i t code ins rows =
           Inl (if varchar_opt 50 (in_customAlias ins) = None \<or> varchar_opt 200 (in_title ins) = None
                then ValueTooLong else UniqueViolation)"
proof (cases "varchar_opt 50 (in_customAlias ins)")
  case None
  with assms show ?thesis by (simp add: new_url_row_def)
next
  case al: (Some al)
  show ?thesis
  proof (cases "varchar_opt 200 (in_title ins)")
    case None
    with assms al show ?thesis by (simp add: new_url_row_def)
  next
    case (Some ti)
    with assms al show ?thesis by (simp add: new_url_row_def)
  qed
qed

lemma createUrl_taken:
  assumes "in_shortCode ins = Some code" and "code \<noteq> []"
    and "varchar 12 code = Some c" and "list_ex (\<lambda>u. shortCode u = c) (urls d)"
  shows "createUrl ids t gen ins d =
           (advance d,
            Inl (if refused d then StorageFault
                 else if varchar_opt 50 (in_customAlias ins) = None \<or> varchar_opt 200 (in_title ins) = None
                 then ValueTooLong else UniqueViolation))"
  using assms new_url_row_taken[OF assms(3,4), of "fst ids" t ins]
  by (simp add: createUrl_def)

lemma retired_code_not_active:
  assumes inv: "urls_inv d" and u: "u \<in> set (urls d)" "shortCode u = c" "isActive u \<noteq> Some True"
  shows "\<not> list_ex (\<lambda>u. shortCode u = c \<and> isActive u = Some True) (urls d)"
proof
  assume "list_ex (\<lambda>u. shortCode u = c \<and> isActive u = Some True) (urls d)"
  then obtain u' where u': "u' \<in> set (urls d)" "shortCode u' = c" "isActive u' = Some True"
    unfolding list_ex_iff by blast
  from inv have "inj_on shortCode (set (urls d))"
    by (simp add: urls_inv_def distinct_map)
  from inj_onD[OF this _ u'(1) u(1)] u'(2) u(2) have "u' = u" by simp
  with u'(3) u(3) show False by simp
qed

lemma truthy_Some: "truthy (Some s) = (s \<noteq> [])"
  by (simp add: truthy_def)

lemma or_else_Some: "s \<noteq> [] \<Longrightarrow> or_else (Some s) fb = s"
  by (simp add: or_else_def truthy_def coalesce_def)

lemma or_else_falsy: "\<not> truthy v \<Longrightarrow> or_else v fb = fb"
  by (simp add: or_else_def)

text \<open>
  C9. In every store the program can reach, a creation request whose custom alias is the
  short code of a link that is not active passes the pre-check (\<^verbatim>\<open>checkCustomAlias\<close>
  answers false unless the statement is refused), so the 400 is not raised; the request
  is answered 500 \<^verbatim>\<open>Failed to create short URL\<close>, and no row is added to \<^verbatim>\<open>urls\<close> or to
  \<^verbatim>\<open>url_analytics\<close>. When the statements are executed and the title fits its column,
  the failure is the unique constraint on \<^verbatim>\<open>short_code\<close>, met by the insert of
  \<^verbatim>\<open>createUrl\<close>.
\<close>

theorem post_urls_retired_alias:
  assumes reach: "reachable d"
    and ali: "in_customAlias v = Some alias" "alias \<noteq> []"
    and u: "u \<in> set (urls d)" "shortCode u = alias" "isActive u \<noteq> Some True"
  shows "snd (checkCustomAlias alias d) = (if refused d then Inl StorageFault else Inr False) \<and>
         fst (snd (post_urls e req (Inr v) d)) = Message 500 ''Failed to create short URL'' \<and>
         urls (fst (post_urls e req (Inr v) d)) = urls d \<and>
         urlAnalytics (fst (post_urls e req (Inr v) d)) = urlAnalytics d \<and>
         (\<forall>qr. \<not> refused d \<longrightarrow> \<not> refused (advance d) \<longrightarrow> varchar_opt 200 (in_title v) \<noteq> None \<longrightarrow>
            snd (createUrl (uuids e) (now e) (nanoid8 e 0)
                   (v\<lparr>in_shortCode := Some alias, in_userId := req_user req, in_qrCodeUrl := Some qr\<rparr>)
                   (advance d)) = Inl UniqueViolation)"
proof -
  from reachable_urls_inv[OF reach] have inv: "urls_inv d" .
  from retired_code_not_active[OF inv u]
  have free: "\<not> list_ex (\<lambda>u. shortCode u = alias \<and> isActive u = Some True) (urls d)" .
  from inv u have "length alias \<le> 12"
    by (auto simp add: urls_inv_def list_all_iff)
  then have fit: "varchar 12 alias = Some alias" "varchar_opt 50 (Some alias) = Some (Some alias)"
    by (simp_all add: varchar_def varchar_opt_def)
  from u have taken: "list_ex (\<lambda>u. shortCode u = alias) (urls (advance d))"
    by (auto simp add: list_ex_iff)
  have chk: "checkCustomAlias alias d = (advance d, if refused d then Inl StorageFault else Inr False)"
    using free by (simp add: checkCustomAlias_def)
  have cr: "\<And>qr. createUrl (uuids e) (now e) (nanoid8 e 0)
                   (v\<lparr>in_shortCode := Some alias, in_userId := req_user req, in_qrCodeUrl := Some qr\<rparr>)
                   (advance d) =
              (advance (advance d),
               Inl (if refused (advance d) then StorageFault
                    else if varchar_opt 200 (in_title v) = None then ValueTooLong else UniqueViolation))"
    using createUrl_taken[OF _ ali(2) fit(1) taken] ali(1) fit(2) by simp
  have 1: "snd (checkCustomAlias alias d) = (if refused d then Inl StorageFault else Inr False)"
    using chk by simp
  have post: "post_urls e req (Inr v) d =
     (if refused d then (advance d, Message 500 ''Failed to create short URL'', [''URL creation error:''])
      else case toDataURL e (short_url req alias) of
             None \<Rightarrow> (advance d, Message 500 ''Failed to create short URL'',
                       [''Error generating QR code:'', ''URL creation error:''])
           | Some qr \<Rightarrow> (advance (advance d), Message 500 ''Failed to create short URL'', [''URL creation error:'']))"
    using ali chk cr
    by (simp add: post_urls_def truthy_Some or_else_Some Let_def split: option.splits)
  have 2: "fst (snd (post_urls e req (Inr v) d)) = Message 500 ''Failed to create short URL''"
    unfolding post by (simp split: option.splits)
  have 3: "urls (fst (post_urls e req (Inr v) d)) = urls d"
    unfolding post by (simp split: option.splits)
  have 4: "urlAnalytics (fst (post_urls e req (Inr v) d)) = urlAnalytics d"
    unfolding post by (simp split: option.splits)
  have 5: "\<forall>qr. \<not> refused d \<longrightarrow> \<not> refused (advance d) \<longrightarrow> varchar_opt 200 (in_title v) \<noteq> None \<longrightarrow>
            snd (createUrl (uuids e) (now e) (nanoid8 e 0)
                   (v\<lparr>in_shortCode := Some alias, in_userId := req_user req, in_qrCodeUrl := Some qr\<rparr>)
                   (advance d)) = Inl UniqueViolation"
    by (simp add: cr)
  from 1 2 3 4 5 show ?thesis by (intro conjI)
qed


theorem post_urls_retired_alias_witness:
  "reachable store_retired \<and> in_customAlias body_alias = Some ''abc12345'' \<and>
   hd (urls store_retired) \<in> set (urls store_retired) \<and>
   shortCode (hd (urls store_retired)) = ''abc12345'' \<and>
   isActive (hd (urls store_retired)) = Some False \<and>
   snd (checkCustomAlias ''abc12345'' store_retired) = Inr False \<and>
   snd (post_urls env2 req0 (Inr body_alias) store_retired) =
     (Message 500 ''Failed to create short URL'', [''URL creation error:'']) \<and>
   urls (fst (post_urls env2 req0 (Inr body_alias) store_retired)) = urls store_retired \<and>
   snd (createUrl (uuids env2) (now env2) (nanoid8 env2 0)
          (body_alias\<lparr>in_shortCode := Some ''abc12345'', in_userId := req_user req0,
                       in_qrCodeUrl := Some ''data:https://sho.rt/abc12345''\<rparr>)
          (advance store_retired)) = Inl UniqueViolation"
proof -
  have a: "in_customAlias body_alias = Some ''abc12345''" by code_simp
  have n: "''abc12345'' \<noteq> []" by simp
  have u: "hd (urls store_retired) \<in> set (urls store_retired)" by code_simp
  have c: "shortCode (hd (urls store_retired)) = ''abc12345''" by code_simp
  have i: "isActive (hd (urls store_retired)) = Some False" by code_simp
  then have i': "isActive (hd (urls store_retired)) \<noteq> Some True" by simp
  have f: "\<not> refused store_retired" "\<not> refused (advance store_retired)"
    "varchar_opt 200 (in_title body_alias) \<noteq> None" by code_simp+
  have l: "snd (snd (post_urls env2 req0 (Inr body_alias) store_retired)) = [''URL creation error:'']"
    by code_simp
  from post_urls_retired_alias[OF reachable_store_retired a n u c i', of env2 req0] f l
  have "snd (checkCustomAlias ''abc12345'' store_retired) = Inr False \<and>
     snd (post_urls env2 req0 (Inr body_alias) store_retired) =
       (Message 500 ''Failed to create short URL'', [''URL creation error:'']) \<and>
     urls (fst (post_urls env2 req0 (Inr body_alias) store_retired)) = urls store_retired \<and>
     snd (createUrl (uuids env2) (now env2) (nanoid8 env2 0)
          (body_alias\<lparr>in_shortCode := Some ''abc12345'', in_userId := req_user req0,
                       in_qrCodeUrl := Some ''data:https://sho.rt/abc12345''\<rparr>)
          (advance store_retired)) = Inl UniqueViolation"
    by (simp add: prod_eq_iff)
  with reachable_store_retired a u c i show ?thesis by simp
qed

subsection \<open>Creating a link without an alias\<close>

lemma createUrl_gen:
  assumes "in_shortCode ins = Some c" and "c \<noteq> []"
  shows "createUrl ids t g ins d = createUrl ids t g' ins d"
  using assms by (simp add: createUrl_def)

lemma createUrl_created:
  assumes run: "createUrl ids t gen ins d = (d', Inr row)"
    and c: "in_shortCode ins = Some c" "c \<noteq> []"
  shows "varchar 12 c = Some (shortCode row) \<and> urls d' = urls d @ [row]"
proof -
  from run have nf: "\<not> refused d" by (auto simp add: createUrl_def Let_def)
  show ?thesis
  proof (cases "new_url_row (fst ids) t c ins (urls d)")
    case (Inl err)
    with run c nf show ?thesis by (simp add: createUrl_def)
  next
    case (Inr r)
    with run c nf have "row = r \<and> urls d' = urls d @ [r]"
      by (auto simp add: createUrl_def Let_def split: if_splits)
    with new_url_row_props[OF Inr] show ?thesis by simp
  qed
qed

text \<open>
  C6 (as amended). For a creation request without a custom alias the handler draws one
  code with \<^verbatim>\<open>nanoid(8)\<close> (8 characters) and inserts the link under it, with no
  uniqueness check of its own and no second draw: the outcome depends on the first result
  of the generator only. If that code is the short code of any link in the table, active
  or not, the request is answered 500 \<^verbatim>\<open>Failed to create short URL\<close> and no link is
  created; a link that is created carries exactly that code.
\<close>

theorem post_urls_generated_code:
  assumes noalias: "\<not> truthy (in_customAlias v)" and len: "length (nanoid8 e 0) = 8"
  shows "(\<forall>g. g 0 = nanoid8 e 0 \<longrightarrow>
            post_urls (e\<lparr>nanoid8 := g\<rparr>) req (Inr v) d = post_urls e req (Inr v) d) \<and>
         (list_ex (\<lambda>u. shortCode u = nanoid8 e 0) (urls d) \<longrightarrow>
            fst (snd (post_urls e req (Inr v) d)) = Message 500 ''Failed to create short URL'' \<and>
            urls (fst (post_urls e req (Inr v) d)) = urls d) \<and>
         (\<forall>url s. fst (snd (post_urls e req (Inr v) d)) = LinkJson url s \<longrightarrow>
            shortCode url = nanoid8 e 0 \<and> s = short_url req (nanoid8 e 0) \<and>
            urls (fst (post_urls e req (Inr v) d)) = urls d @ [url])"
proof -
  let ?code = "nanoid8 e 0"
  let ?ins = "\<lambda>qr. v\<lparr>in_shortCode := Some ?code, in_userId := req_user req, in_qrCodeUrl := Some qr\<rparr>"
  from len have ne: "?code \<noteq> []" by auto
  from len have fit: "varchar 12 ?code = Some ?code" by (simp add: varchar_def)
  have post: "\<And>g. g 0 = ?code \<Longrightarrow> post_urls (e\<lparr>nanoid8 := g\<rparr>) req (Inr v) d =
     (case toDataURL e (short_url req ?code) of
        None \<Rightarrow> (d, Message 500 ''Failed to create short URL'',
                  [''Error generating QR code:'', ''URL creation error:''])
      | Some qr \<Rightarrow>
          (case createUrl (uuids e) (now e) (g 1) (?ins qr) d of
             (d2, Inl err) \<Rightarrow> (d2, Message 500 ''Failed to create short URL'', [''URL creation error:''])
           | (d2, Inr url) \<Rightarrow> (d2, LinkJson url (short_url req ?code), [])))"
    using noalias by (simp add: post_urls_def or_else_falsy Let_def split: option.splits)
  have post0: "post_urls e req (Inr v) d =
     (case toDataURL e (short_url req ?code) of
        None \<Rightarrow> (d, Message 500 ''Failed to create short URL'',
                  [''Error generating QR code:'', ''URL creation error:''])
      | Some qr \<Rightarrow>
          (case createUrl (uuids e) (now e) (nanoid8 e 1) (?ins qr) d of
             (d2, Inl err) \<Rightarrow> (d2, Message 500 ''Failed to create short URL'', [''URL creation error:''])
           | (d2, Inr url) \<Rightarrow> (d2, LinkJson url (short_url req ?code), [])))"
    using post[of "nanoid8 e"] by simp
  have 1: "\<forall>g. g 0 = ?code \<longrightarrow> post_urls (e\<lparr>nanoid8 := g\<rparr>) req (Inr v) d = post_urls e req (Inr v) d"
  proof (intro allI impI)
    fix g :: "nat \<Rightarrow> string" assume g: "g 0 = ?code"
    have "\<And>qr. createUrl (uuids e) (now e) (g 1) (?ins qr) d =
                createUrl (uuids e) (now e) (nanoid8 e 1) (?ins qr) d"
      by (rule createUrl_gen[OF _ ne]) simp
    then show "post_urls (e\<lparr>nanoid8 := g\<rparr>) req (Inr v) d = post_urls e req (Inr v) d"
      unfolding post[of g, OF g] post0 by (simp split: option.splits)
  qed
  have 2: "list_ex (\<lambda>u. shortCode u = ?code) (urls d) \<longrightarrow>
            fst (snd (post_urls e req (Inr v) d)) = Message 500 ''Failed to create short URL'' \<and>
            urls (fst (post_urls e req (Inr v) d)) = urls d"
  proof
    assume taken: "list_ex (\<lambda>u. shortCode u = ?code) (urls d)"
    have "\<And>qr. createUrl (uuids e) (now e) (nanoid8 e 1) (?ins qr) d =
            (advance d, Inl (if refused d then StorageFault
                 else if varchar_opt 50 (in_customAlias v) = None \<or> varchar_opt 200 (in_title v) = None
                 then ValueTooLong else UniqueViolation))"
      using createUrl_taken[OF _ ne fit taken] by simp
    then show "fst (snd (post_urls e req (Inr v) d)) = Message 500 ''Failed to create short URL'' \<and>
            urls (fst (post_urls e req (Inr v) d)) = urls d"
      unfolding post0 by (simp split: option.splits)
  qed
  have 3: "\<forall>url s. fst (snd (post_urls e req (Inr v) d)) = LinkJson url s \<longrightarrow>
            shortCode url = ?code \<and> s = short_url req ?code \<and>
            urls (fst (post_urls e req (Inr v) d)) = urls d @ [url]"
  proof (intro allI impI)
    fix url s assume r: "fst (snd (post_urls e req (Inr v) d)) = LinkJson url s"
    then obtain qr where qr: "toDataURL e (short_url req ?code) = Some qr"
      unfolding post0 by (cases "toDataURL e (short_url req ?code)") auto
    obtain d2 x where cr: "createUrl (uuids e) (now e) (nanoid8 e 1) (?ins qr) d = (d2, x)"
      by (cases "createUrl (uuids e) (now e) (nanoid8 e 1) (?ins qr) d")
    from r qr cr have x: "x = Inr url" and s: "s = short_url req ?code"
      unfolding post0 by (cases x; simp)+
    from createUrl_created[OF cr[unfolded x] _ ne] fit have "shortCode url = ?code" "urls d2 = urls d @ [url]"
      by simp_all
    moreover from qr cr x have "fst (post_urls e req (Inr v) d) = d2"
      unfolding post0 by simp
    ultimately show "shortCode url = ?code \<and> s = short_url req ?code \<and>
            urls (fst (post_urls e req (Inr v) d)) = urls d @ [url]"
      using s by simp
  qed
  from 1 2 3 show ?thesis by (intro conjI)
qed

theorem post_urls_generated_code_witness:
  "\<not> truthy (in_customAlias body0) \<and> length (nanoid8 env2 0) = 8 \<and>
   list_ex (\<lambda>u. shortCode u = nanoid8 env2 0) (urls store1) \<and>
   fst (snd (post_urls env2 req0 (Inr body0) store1)) = Message 500 ''Failed to create short URL'' \<and>
   urls (fst (post_urls env2 req0 (Inr body0) store1)) = urls store1 \<and>
   length (nanoid8 env0 0) = 8 \<and>
   fst (snd (post_urls env0 req0 (Inr body0) store0)) = LinkJson (hd (urls store1)) ''https://sho.rt/abc12345'' \<and>
   shortCode (hd (urls store1)) = ''abc12345'' \<and>
   urls (fst (post_urls env0 req0 (Inr body0) store0)) = [hd (urls store1)]"
proof -
  have a: "\<not> truthy (in_customAlias body0)" by code_simp
  have l2: "length (nanoid8 env2 0) = 8" by code_simp
  have l0: "length (nanoid8 env0 0) = 8" by code_simp
  have t: "list_ex (\<lambda>u. shortCode u = nanoid8 env2 0) (urls store1)" by code_simp
  have r: "fst (snd (post_urls env0 req0 (Inr body0) store0)) = LinkJson (hd (urls store1)) ''https://sho.rt/abc12345''"
    by code_simp
  have c: "nanoid8 env0 0 = ''abc12345''" "urls store0 = []" by code_simp+
  from post_urls_generated_code[OF a l2, of req0 store1] t
  have A: "fst (snd (post_urls env2 req0 (Inr body0) store1)) = Message 500 ''Failed to create short URL'' \<and>
   urls (fst (post_urls env2 req0 (Inr body0) store1)) = urls store1" by simp
  from post_urls_generated_code[OF a l0, of req0 store0] r c
  have B: "shortCode (hd (urls store1)) = ''abc12345'' \<and>
   urls (fst (post_urls env0 req0 (Inr body0) store0)) = [hd (urls store1)]" by simp
  from a l2 l0 t r A B show ?thesis by simp
qed

text \<open>
  The claim as stated, that a collision is followed by a new draw and up to five or more
  attempts, is false: the first code collides with the sample link, the generator's next
  code is free, and the request fails at once with the 500.
\<close>

theorem post_urls_no_retry_counterexample:
  "in_customAlias body0 = None \<and>
   nanoid8 env2 0 = ''abc12345'' \<and> nanoid8 env2 1 = ''zzzzzzzz'' \<and>
   list_ex (\<lambda>u. shortCode u = ''abc12345'') (urls store1) \<and>
   \<not> list_ex (\<lambda>u. shortCode u = ''zzzzzzzz'') (urls store1) \<and>
   snd (post_urls env2 req0 (Inr body0) store1) =
     (Message 500 ''Failed to create short URL'', [''URL creation error:'']) \<and>
   urls (fst (post_urls env2 req0 (Inr body0) store1)) = urls store1"
  by code_simp

subsection \<open>What changes a short code\<close>








end
